theory Spec2Isabelle
  imports Main "HOL-Library.Word" "HOL-Library.AList"
begin

section \<open>Data model of dad-controller.go\<close>

text \<open>
  \<^verbatim>\<open>time.Weekday\<close> is an integer enumeration, Sunday first.
\<close>

datatype weekday = Sunday | Monday | Tuesday | Wednesday | Thursday | Friday | Saturday

text \<open>
  \<^verbatim>\<open>type duration time.Duration\<close>: a signed 64-bit count of nanoseconds. Addition
  wraps around, comparison is the signed one (\<open>sint\<close>).
\<close>

type_synonym duration = "64 word"

text \<open>
  A \<^verbatim>\<open>time.Time\<close> value is read by the controller through six accessors only:
  \<^verbatim>\<open>Year()\<close>, \<^verbatim>\<open>Month()\<close>, \<^verbatim>\<open>Day()\<close>, \<^verbatim>\<open>Weekday()\<close>, \<^verbatim>\<open>Hour()\<close> and
  \<^verbatim>\<open>Minute()\<close>. The model of a time is the tuple of what they return.
\<close>

record gotime =
  Year :: int
  Month :: int
  Day :: int
  Weekday :: weekday
  Hour :: int
  Minute :: int

record timePeriod =
  Begin :: int
  End :: int

record schedule =
  AllowedPeriods :: "timePeriod list"
  MaxDuration :: duration

text \<open>
  \<^verbatim>\<open>AllowedSchedules map[time.Weekday]*schedule\<close>: the pointers stored by
  \<^verbatim>\<open>getOrCreateSchedule\<close> are never nil, so the map holds the schedules themselves.
\<close>

record activityRule =
  Name :: string
  ProcessPatterns :: "string list"
  AllowedSchedules :: "weekday \<rightharpoonup> schedule"

record runningProcess =
  Pid :: int
  Path :: string

text \<open>
  A Go map that the code iterates over with \<^verbatim>\<open>range\<close> is an association list with
  pairwise distinct keys; the order of the list stands for the order in which
  \<^verbatim>\<open>range\<close> happens to visit the keys, which Go leaves unspecified.
\<close>

type_synonym classified = "(string \<times> runningProcess list) list"

definition is_gomap :: "('k \<times> 'v) list \<Rightarrow> bool" where
  "is_gomap m = distinct (map fst m)"

text \<open>\<^verbatim>\<open>rp[activity]\<close>: a missing key reads as the nil slice.\<close>

definition procs_of :: "classified \<Rightarrow> string \<Rightarrow> runningProcess list" where
  "procs_of rp activity = (case map_of rp activity of None \<Rightarrow> [] | Some ps \<Rightarrow> ps)"

text \<open>
  The state of the controller. The configuration file fields are left out; the three hooks
  are the arguments and results of the operations: the clock is the argument \<open>now\<close>, the
  process lister is the argument \<open>processes\<close>, and every call of
  \<^verbatim>\<open>KillRunningProcesses\<close> is recorded, in order, in a list of calls.

  \<^verbatim>\<open>Activities []*activityRule\<close> holds the pointers that
  \<^verbatim>\<open>getOrCreateActivityRule\<close> appends, one allocation each and never nil, and a scan
  writes to no rule: the list holds the rules themselves. In
  \<^verbatim>\<open>ActivityDuration map[time.Weekday]map[string]time.Duration\<close> every inner map is
  made for its weekday alone, so an update of \<^verbatim>\<open>ad[activity]\<close> is an update of the
  bucket of that weekday and of nothing else. Neither map is iterated over for a result
  (only for printing), so both are partial functions.
\<close>

record dadController =
  SamplingInterval :: duration
  Activities :: "activityRule list"
  LastControlTime :: gotime
  ActivityDuration :: "weekday \<rightharpoonup> (string \<rightharpoonup> duration)"

type_synonym kill_call = "string \<times> runningProcess list \<times> string"

datatype error = NilPointerDereference

section \<open>Operations\<close>

definition newDadController :: "duration \<Rightarrow> gotime \<Rightarrow> dadController" where
  "newDadController samplingInterval t =
     \<lparr>SamplingInterval = samplingInterval, Activities = [],
      LastControlTime = t, ActivityDuration = Map.empty\<rparr>"

definition GetActivityDuration :: "dadController \<Rightarrow> string \<Rightarrow> duration" where
  "GetActivityDuration c activity =
     (let day = Weekday (LastControlTime c) in
      case ActivityDuration c day of
        None \<Rightarrow> 0
      | Some ad \<Rightarrow> (case ad activity of None \<Rightarrow> 0 | Some d \<Rightarrow> d))"

definition updateActivityDuration :: "dadController \<Rightarrow> string \<Rightarrow> duration \<Rightarrow> dadController" where
  "updateActivityDuration c activity d =
     (let day = Weekday (LastControlTime c);
          ad = (case ActivityDuration c day of None \<Rightarrow> Map.empty | Some ad \<Rightarrow> ad)
      in c\<lparr>ActivityDuration := (ActivityDuration c)(day \<mapsto> ad(activity \<mapsto> d))\<rparr>)"

text \<open>
  \<^verbatim>\<open>getOrCreateActivityRule\<close>: the first rule of that name, else a new rule with no
  pattern and an empty schedule map, appended to the rule list.
\<close>

definition getOrCreateActivityRule :: "dadController \<Rightarrow> string \<Rightarrow> dadController \<times> activityRule" where
  "getOrCreateActivityRule c activity =
     (case find (\<lambda>a. Name a = activity) (Activities c) of
        Some a \<Rightarrow> (c, a)
      | None \<Rightarrow>
          (let a = \<lparr>Name = activity, ProcessPatterns = [], AllowedSchedules = Map.empty\<rparr>
           in (c\<lparr>Activities := Activities c @ [a]\<rparr>, a)))"

definition AddProgramPattern :: "activityRule \<Rightarrow> string \<Rightarrow> activityRule" where
  "AddProgramPattern a programPattern =
     a\<lparr>ProcessPatterns := ProcessPatterns a @ [programPattern]\<rparr>"

definition getOrCreateSchedule :: "activityRule \<Rightarrow> weekday \<Rightarrow> activityRule \<times> schedule" where
  "getOrCreateSchedule a day =
     (case AllowedSchedules a day of
        Some s \<Rightarrow> (a, s)
      | None \<Rightarrow>
          (let s = \<lparr>AllowedPeriods = [], MaxDuration = 0\<rparr>
           in (a\<lparr>AllowedSchedules := (AllowedSchedules a)(day \<mapsto> s)\<rparr>, s)))"

fun AddAllowedPeriod :: "activityRule \<Rightarrow> weekday list \<Rightarrow> int \<Rightarrow> int \<Rightarrow> activityRule" where
  "AddAllowedPeriod a [] b e = a"
| "AddAllowedPeriod a (d # days) b e =
     (let (a', s) = getOrCreateSchedule a d;
          s' = s\<lparr>AllowedPeriods := AllowedPeriods s @ [\<lparr>Begin = b, End = e\<rparr>]\<rparr>
      in AddAllowedPeriod (a'\<lparr>AllowedSchedules := (AllowedSchedules a')(d \<mapsto> s')\<rparr>) days b e)"

fun SetMaximumAllowedDurationPerDay :: "activityRule \<Rightarrow> weekday list \<Rightarrow> duration \<Rightarrow> activityRule" where
  "SetMaximumAllowedDurationPerDay a [] m = a"
| "SetMaximumAllowedDurationPerDay a (d # days) m =
     (let (a', s) = getOrCreateSchedule a d
      in SetMaximumAllowedDurationPerDay
           (a'\<lparr>AllowedSchedules := (AllowedSchedules a')(d \<mapsto> s\<lparr>MaxDuration := m\<rparr>)\<rparr>) days m)"

text \<open>
  The \<^verbatim>\<open>regexp\<close> package is not part of the repository. Its two functions that the
  code calls are parameters of the model: \<open>Compile\<close> returns a compiled expression, or
  \<open>None\<close> where \<^verbatim>\<open>regexp.Compile\<close> returns an error together with a nil
  \<^verbatim>\<open>*Regexp\<close>; \<open>MatchString\<close> is \<^verbatim>\<open>(*Regexp).MatchString\<close> on a compiled
  expression. The code drops the error (\<^verbatim>\<open>regex, _ := regexp.Compile(processPattern)\<close>)
  and calls \<^verbatim>\<open>regex.MatchString(rp.Path)\<close> once per process: on the nil pointer that
  call reads a field of the receiver and the Go runtime panics.

  The innermost loop of \<^verbatim>\<open>getRunningProcessesPerActivity\<close>, over the processes.
\<close>

fun match_processes ::
  "'r option \<Rightarrow> ('r \<Rightarrow> string \<Rightarrow> bool) \<Rightarrow> string \<Rightarrow> runningProcess list \<Rightarrow> classified
     \<Rightarrow> error + classified" where
  "match_processes regex MatchString name [] results = Inr results"
| "match_processes regex MatchString name (rp # processes) results =
     (case regex of
        None \<Rightarrow> Inl NilPointerDereference
      | Some re \<Rightarrow>
          if MatchString re (Path rp)
          then match_processes regex MatchString name processes
                 (AList.update name (procs_of results name @ [rp]) results)
          else match_processes regex MatchString name processes results)"

text \<open>The middle loop, over the patterns of one activity.\<close>

fun match_patterns ::
  "(string \<Rightarrow> 'r option) \<Rightarrow> ('r \<Rightarrow> string \<Rightarrow> bool) \<Rightarrow> string \<Rightarrow> string list
     \<Rightarrow> runningProcess list \<Rightarrow> classified \<Rightarrow> error + classified" where
  "match_patterns Compile MatchString name [] processes results = Inr results"
| "match_patterns Compile MatchString name (processPattern # patterns) processes results =
     (case match_processes (Compile processPattern) MatchString name processes results of
        Inl e \<Rightarrow> Inl e
      | Inr results' \<Rightarrow> match_patterns Compile MatchString name patterns processes results')"

text \<open>The outer loop, over the rules.\<close>

fun match_activities ::
  "(string \<Rightarrow> 'r option) \<Rightarrow> ('r \<Rightarrow> string \<Rightarrow> bool) \<Rightarrow> activityRule list
     \<Rightarrow> runningProcess list \<Rightarrow> classified \<Rightarrow> error + classified" where
  "match_activities Compile MatchString [] processes results = Inr results"
| "match_activities Compile MatchString (activity # activities) processes results =
     (case match_patterns Compile MatchString (Name activity) (ProcessPatterns activity)
             processes results of
        Inl e \<Rightarrow> Inl e
      | Inr results' \<Rightarrow> match_activities Compile MatchString activities processes results')"

definition getRunningProcessesPerActivity ::
  "(string \<Rightarrow> 'r option) \<Rightarrow> ('r \<Rightarrow> string \<Rightarrow> bool) \<Rightarrow> dadController
     \<Rightarrow> runningProcess list \<Rightarrow> error + classified" where
  "getRunningProcessesPerActivity Compile MatchString c processes =
     match_activities Compile MatchString (Activities c) processes []"

text \<open>
  \<^verbatim>\<open>updateActivityCounters\<close>, first part: the comparison of the calendar dates and the
  \<^verbatim>\<open>delete\<close> of the bucket of \<^verbatim>\<open>now.Weekday()\<close>.
\<close>

definition dayRollover :: "dadController \<Rightarrow> gotime \<Rightarrow> dadController" where
  "dayRollover c now =
     (if Year now \<noteq> Year (LastControlTime c) \<or>
         Month now \<noteq> Month (LastControlTime c) \<or>
         Day now \<noteq> Day (LastControlTime c)
      then c\<lparr>ActivityDuration := (ActivityDuration c)(Weekday now := None)\<rparr>
      else c)"

text \<open>The loop \<^verbatim>\<open>for activity := range rp\<close> that updates the counters of one bucket.\<close>

fun bump_counters :: "duration \<Rightarrow> string list \<Rightarrow> (string \<rightharpoonup> duration) \<Rightarrow> (string \<rightharpoonup> duration)" where
  "bump_counters si [] ad = ad"
| "bump_counters si (activity # rest) ad =
     (let d = (case ad activity of None \<Rightarrow> 0 | Some d \<Rightarrow> d)
      in bump_counters si rest (ad(activity \<mapsto> d + si)))"

definition updateActivityCounters :: "dadController \<Rightarrow> classified \<Rightarrow> gotime \<Rightarrow> dadController" where
  "updateActivityCounters c rp now =
     (let c1 = (dayRollover c now)\<lparr>LastControlTime := now\<rparr>
      in if length rp > 0
         then (let day = Weekday (LastControlTime c1);
                   ad = (case ActivityDuration c1 day of None \<Rightarrow> Map.empty | Some ad \<Rightarrow> ad)
               in c1\<lparr>ActivityDuration :=
                       (ActivityDuration c1)
                         (day \<mapsto> bump_counters (SamplingInterval c1) (map fst rp) ad)\<rparr>)
         else c1)"

text \<open>The loop over \<^verbatim>\<open>schedule.AllowedPeriods\<close> that sets \<^verbatim>\<open>foundValidPeriod\<close>.\<close>

fun foundValidPeriod :: "int \<Rightarrow> timePeriod list \<Rightarrow> bool \<Rightarrow> bool" where
  "foundValidPeriod dayTime [] found = found"
| "foundValidPeriod dayTime (ap # aps) found =
     foundValidPeriod dayTime aps
       (if dayTime \<ge> Begin ap \<and> dayTime < End ap then True else found)"

text \<open>
  One iteration of the loop of \<^verbatim>\<open>controlActivities\<close>: the new state (the rule list may
  have grown) and the calls of \<^verbatim>\<open>KillRunningProcesses\<close> it makes.
\<close>

definition control_activity ::
  "weekday \<Rightarrow> int \<Rightarrow> (string \<rightharpoonup> duration) \<Rightarrow> classified \<Rightarrow> string \<Rightarrow> dadController
     \<Rightarrow> dadController \<times> kill_call list" where
  "control_activity day dayTime ad rp activity c =
     (let (c', a) = getOrCreateActivityRule c activity in
      case AllowedSchedules a day of
        None \<Rightarrow>
          (c', [(activity, procs_of rp activity, ''Activity not allowed to be done on this day'')])
      | Some schedule \<Rightarrow>
          (let maxDuration = MaxDuration schedule in
           if sint maxDuration < sint (case ad activity of None \<Rightarrow> 0 | Some d \<Rightarrow> d)
           then (c', [(activity, procs_of rp activity,
                       ''Activity duration above threshold for this day'')])
           else if \<not> foundValidPeriod dayTime (AllowedPeriods schedule) False
           then (c', [(activity, procs_of rp activity,
                       ''Activity not allowed to be done during this time range'')])
           else (c', [])))"

fun control_loop ::
  "weekday \<Rightarrow> int \<Rightarrow> (string \<rightharpoonup> duration) \<Rightarrow> classified \<Rightarrow> string list \<Rightarrow> dadController
     \<Rightarrow> dadController \<times> kill_call list" where
  "control_loop day dayTime ad rp [] c = (c, [])"
| "control_loop day dayTime ad rp (activity # rest) c =
     (let (c', kills) = control_activity day dayTime ad rp activity c;
          (c'', kills') = control_loop day dayTime ad rp rest c'
      in (c'', kills @ kills'))"

definition controlActivities :: "dadController \<Rightarrow> classified \<Rightarrow> dadController \<times> kill_call list" where
  "controlActivities c rp =
     (let day = Weekday (LastControlTime c);
          dayTime = Hour (LastControlTime c) * 100 + Minute (LastControlTime c)
      in case ActivityDuration c day of
           None \<Rightarrow> (c, [])
         | Some ad \<Rightarrow> control_loop day dayTime ad rp (map fst rp) c)"

text \<open>
  \<^verbatim>\<open>scan\<close>: classify, update the counters at the time the clock gives, control. A panic
  of the classification ends the scan.
\<close>

definition scan ::
  "(string \<Rightarrow> 'r option) \<Rightarrow> ('r \<Rightarrow> string \<Rightarrow> bool) \<Rightarrow> dadController \<Rightarrow> runningProcess list
     \<Rightarrow> gotime \<Rightarrow> error + dadController \<times> kill_call list" where
  "scan Compile MatchString c processes now =
     (case getRunningProcessesPerActivity Compile MatchString c processes of
        Inl e \<Rightarrow> Inl e
      | Inr rp \<Rightarrow> Inr (controlActivities (updateActivityCounters c rp now) rp))"

section \<open>Notions used in the statements\<close>

text \<open>
  The schedule that one iteration of \<^verbatim>\<open>controlActivities\<close> finds for an activity:
  \<^verbatim>\<open>a.AllowedSchedules[day]\<close> of the rule \<^verbatim>\<open>a\<close> that
  \<^verbatim>\<open>getOrCreateActivityRule\<close> resolves.
\<close>

definition resolved_schedule :: "dadController \<Rightarrow> weekday \<Rightarrow> string \<Rightarrow> schedule option" where
  "resolved_schedule c day activity =
     AllowedSchedules (snd (getOrCreateActivityRule c activity)) day"

text \<open>A pattern matches a process when it compiles and the compiled expression matches the path.\<close>

definition matches ::
  "(string \<Rightarrow> 'r option) \<Rightarrow> ('r \<Rightarrow> string \<Rightarrow> bool) \<Rightarrow> string \<Rightarrow> runningProcess \<Rightarrow> bool" where
  "matches Compile MatchString processPattern rp =
     (case Compile processPattern of None \<Rightarrow> False | Some re \<Rightarrow> MatchString re (Path rp))"

section \<open>Example values\<close>

text \<open>
  The values of the repository's tests: a sampling interval of one minute, the rule
  \<open>GTA\<close> with a budget of fifteen minutes, the process \<open>GTA.exe\<close> with pid 1. The
  dates are Sunday 2026-11-01 and the Sunday before it.
\<close>

definition minute :: duration where
  "minute = 60000000000"

definition ex_process :: runningProcess where
  "ex_process = \<lparr>Pid = 1, Path = ''C:/GTA.exe''\<rparr>"

definition ex_schedule :: schedule where
  "ex_schedule = \<lparr>AllowedPeriods = [\<lparr>Begin = 2000, End = 2100\<rparr>], MaxDuration = 15 * minute\<rparr>"

definition ex_rule :: activityRule where
  "ex_rule = \<lparr>Name = ''GTA'', ProcessPatterns = [''GTA''],
              AllowedSchedules = [Sunday \<mapsto> ex_schedule]\<rparr>"

definition ex_time :: "int \<Rightarrow> int \<Rightarrow> gotime" where
  "ex_time h m = \<lparr>Year = 2026, Month = 11, Day = 1, Weekday = Sunday, Hour = h, Minute = m\<rparr>"

definition ex_week_before :: gotime where
  "ex_week_before = \<lparr>Year = 2026, Month = 10, Day = 25, Weekday = Sunday, Hour = 20, Minute = 30\<rparr>"

definition ex_controller :: "gotime \<Rightarrow> duration \<Rightarrow> dadController" where
  "ex_controller t d =
     \<lparr>SamplingInterval = minute, Activities = [ex_rule], LastControlTime = t,
      ActivityDuration = [Weekday t \<mapsto> [''GTA'' \<mapsto> d]]\<rparr>"

definition ex_rp :: classified where
  "ex_rp = [(''GTA'', [ex_process])]"

text \<open>A classified map naming an activity that no rule describes.\<close>

definition ex_unknown_rp :: classified where
  "ex_unknown_rp = [(''Steam'', [\<lparr>Pid = 2, Path = ''C:/Steam.exe''\<rparr>])]"

text \<open>
  A stand-in for the \<^verbatim>\<open>regexp\<close> package on the patterns of the examples: a pattern
  without meta character compiles to itself and matches every string that contains it;
  the pattern \<^verbatim>\<open>(\<close> does not compile (missing closing parenthesis).
\<close>

fun starts_with :: "string \<Rightarrow> string \<Rightarrow> bool" where
  "starts_with [] s = True"
| "starts_with (c # p) [] = False"
| "starts_with (c # p) (d # s) = (c = d \<and> starts_with p s)"

fun contains :: "string \<Rightarrow> string \<Rightarrow> bool" where
  "contains p [] = (p = [])"
| "contains p (d # s) = (starts_with p (d # s) \<or> contains p s)"

definition ex_Compile :: "string \<Rightarrow> string option" where
  "ex_Compile p = (if p = ''('' then None else Some p)"

definition ex_MatchString :: "string \<Rightarrow> string \<Rightarrow> bool" where
  "ex_MatchString re s = contains re s"

text \<open>Two rules that share a process; the first matches it through two of its patterns.\<close>

definition ex_two_rules :: dadController where
  "ex_two_rules =
     \<lparr>SamplingInterval = minute,
      Activities = [\<lparr>Name = ''GTA'', ProcessPatterns = [''GTA'', ''exe''],
                     AllowedSchedules = [Sunday \<mapsto> ex_schedule]\<rparr>,
                    \<lparr>Name = ''Games'', ProcessPatterns = [''GTA''],
                     AllowedSchedules = Map.empty\<rparr>],
      LastControlTime = ex_time 20 30, ActivityDuration = Map.empty\<rparr>"

text \<open>A rule whose second pattern does not compile.\<close>

definition ex_bad_pattern :: dadController where
  "ex_bad_pattern =
     \<lparr>SamplingInterval = minute,
      Activities = [\<lparr>Name = ''GTA'', ProcessPatterns = [''GTA'', ''(''],
                     AllowedSchedules = [Sunday \<mapsto> ex_schedule]\<rparr>],
      LastControlTime = ex_time 20 30, ActivityDuration = Map.empty\<rparr>"

section \<open>Reading the accumulated duration\<close>

text \<open>
  C10. \<^verbatim>\<open>GetActivityDuration\<close> returns the zero duration when the bucket of
  \<^verbatim>\<open>LastControlTime.Weekday()\<close> is missing, the zero duration when that bucket has no entry
  for the activity, and the stored duration otherwise. It is a total function of the state
  and the name, and it returns nothing but the duration: the state is only read.
\<close>

theorem GetActivityDuration_cases:
  "(ActivityDuration c (Weekday (LastControlTime c)) = None
      \<longrightarrow> GetActivityDuration c activity = 0) \<and>
   (\<forall>ad. ActivityDuration c (Weekday (LastControlTime c)) = Some ad \<and> ad activity = None
      \<longrightarrow> GetActivityDuration c activity = 0) \<and>
   (\<forall>ad d. ActivityDuration c (Weekday (LastControlTime c)) = Some ad \<and> ad activity = Some d
      \<longrightarrow> GetActivityDuration c activity = d)"
  by (simp add: GetActivityDuration_def)

theorem GetActivityDuration_cases_witness:
  "ActivityDuration (ex_controller (ex_time 20 30) (14 * minute))
      (Weekday (LastControlTime (ex_controller (ex_time 20 30) (14 * minute))))
     = Some [''GTA'' \<mapsto> 14 * minute] \<and>
   GetActivityDuration (ex_controller (ex_time 20 30) (14 * minute)) ''GTA'' = 14 * minute \<and>
   GetActivityDuration (ex_controller (ex_time 20 30) (14 * minute)) ''Steam'' = 0 \<and>
   GetActivityDuration (newDadController minute (ex_time 20 30)) ''GTA'' = 0"
  using GetActivityDuration_cases [of "ex_controller (ex_time 20 30) (14 * minute)" "''GTA''"]
    GetActivityDuration_cases [of "ex_controller (ex_time 20 30) (14 * minute)" "''Steam''"]
    GetActivityDuration_cases [of "newDadController minute (ex_time 20 30)" "''GTA''"]
  by (simp add: ex_controller_def ex_time_def newDadController_def)


section \<open>Classification\<close>

lemma procs_of_update:
  "procs_of (AList.update k v al) n = (if n = k then v else procs_of al n)"
  by (simp add: procs_of_def update_conv')

lemma procs_of_Nil: "procs_of [] n = []"
  by (simp add: procs_of_def)

lemma procs_of_gomap: "is_gomap rp \<Longrightarrow> (a, ps) \<in> set rp \<Longrightarrow> procs_of rp a = ps"
  by (simp add: procs_of_def is_gomap_def)

lemma match_processes_Some:
  "distinct (map fst res) \<Longrightarrow>
   \<exists>res'. match_processes (Some re) M name procs res = Inr res' \<and> distinct (map fst res') \<and>
     (\<forall>n. procs_of res' n =
        (if n = name then procs_of res name @ filter (\<lambda>rp. M re (Path rp)) procs
         else procs_of res n))"
proof (induction procs arbitrary: res)
  case Nil
  then show ?case by simp
next
  case (Cons rp procs)
  show ?case
  proof (cases "M re (Path rp)")
    case True
    let ?res1 = "AList.update name (procs_of res name @ [rp]) res"
    have "distinct (map fst ?res1)" using Cons.prems by (simp add: distinct_update)
    from Cons.IH [OF this] obtain res' where
      r: "match_processes (Some re) M name procs ?res1 = Inr res'" "distinct (map fst res')"
         "\<forall>n. procs_of res' n =
            (if n = name then procs_of ?res1 name @ filter (\<lambda>rp. M re (Path rp)) procs
             else procs_of ?res1 n)"
      by blast
    show ?thesis using r True by (simp add: procs_of_update)
  next
    case False
    from Cons.IH [OF Cons.prems] obtain res' where
      r: "match_processes (Some re) M name procs res = Inr res'" "distinct (map fst res')"
         "\<forall>n. procs_of res' n =
            (if n = name then procs_of res name @ filter (\<lambda>rp. M re (Path rp)) procs
             else procs_of res n)"
      by blast
    show ?thesis using r False by simp
  qed
qed

lemma match_processes_None:
  "match_processes None M name procs res = (if procs = [] then Inr res else Inl NilPointerDereference)"
  by (cases procs) simp_all

lemma match_patterns_ok:
  "distinct (map fst res) \<Longrightarrow> \<forall>p\<in>set ps. C p \<noteq> None \<Longrightarrow>
   \<exists>res'. match_patterns C M name ps procs res = Inr res' \<and> distinct (map fst res') \<and>
     (\<forall>n. procs_of res' n =
        (if n = name
         then procs_of res name @ concat (map (\<lambda>p. filter (matches C M p) procs) ps)
         else procs_of res n))"
proof (induction ps arbitrary: res)
  case Nil
  then show ?case by simp
next
  case (Cons p ps)
  then obtain re where re: "C p = Some re" by auto
  from match_processes_Some [OF Cons.prems(1), of re M name procs] obtain res1 where
    r1: "match_processes (Some re) M name procs res = Inr res1" "distinct (map fst res1)"
        "\<forall>n. procs_of res1 n =
           (if n = name then procs_of res name @ filter (\<lambda>rp. M re (Path rp)) procs
            else procs_of res n)"
    by blast
  have m: "filter (matches C M p) procs = filter (\<lambda>rp. M re (Path rp)) procs"
    by (rule filter_cong) (simp_all add: matches_def re)
  from Cons.IH [OF r1(2)] Cons.prems(2) obtain res' where
    r: "match_patterns C M name ps procs res1 = Inr res'" "distinct (map fst res')"
       "\<forall>n. procs_of res' n =
          (if n = name
           then procs_of res1 name @ concat (map (\<lambda>p. filter (matches C M p) procs) ps)
           else procs_of res1 n)"
    by auto
  show ?case using r r1 re m by simp
qed

lemma match_activities_ok:
  "distinct (map fst res) \<Longrightarrow> \<forall>a\<in>set acts. \<forall>p\<in>set (ProcessPatterns a). C p \<noteq> None \<Longrightarrow>
   \<exists>res'. match_activities C M acts procs res = Inr res' \<and> distinct (map fst res') \<and>
     (\<forall>n. procs_of res' n =
        procs_of res n @
        concat (map (\<lambda>a. concat (map (\<lambda>p. filter (matches C M p) procs) (ProcessPatterns a)))
                  (filter (\<lambda>a. Name a = n) acts)))"
proof (induction acts arbitrary: res)
  case Nil
  then show ?case by simp
next
  case (Cons a acts)
  have "\<forall>p\<in>set (ProcessPatterns a). C p \<noteq> None" using Cons.prems(2) by simp
  from match_patterns_ok [OF Cons.prems(1) this, of M "Name a" procs] obtain res1 where
    r1: "match_patterns C M (Name a) (ProcessPatterns a) procs res = Inr res1"
        "distinct (map fst res1)"
        "\<forall>n. procs_of res1 n =
           (if n = Name a
            then procs_of res (Name a) @
                 concat (map (\<lambda>p. filter (matches C M p) procs) (ProcessPatterns a))
            else procs_of res n)"
    by blast
  from Cons.IH [OF r1(2)] Cons.prems(2) obtain res' where
    r: "match_activities C M acts procs res1 = Inr res'" "distinct (map fst res')"
       "\<forall>n. procs_of res' n =
          procs_of res1 n @
          concat (map (\<lambda>a. concat (map (\<lambda>p. filter (matches C M p) procs) (ProcessPatterns a)))
                    (filter (\<lambda>a. Name a = n) acts))"
    by auto
  show ?case using r r1 by simp
qed

lemma count_list_filter:
  "count_list (filter P xs) x = (if P x then count_list xs x else 0)"
  by (induction xs) auto

lemma count_list_concat:
  "count_list (concat xss) x = sum_list (map (\<lambda>xs. count_list xs x) xss)"
  by (induction xss) auto

lemma count_matched_patterns:
  "count_list (concat (map (\<lambda>p. filter (Q p) procs) ps)) rp =
     count_list procs rp * length (filter (\<lambda>p. Q p rp) ps)"
  by (induction ps) (auto simp: count_list_filter)

lemma count_matched_activities:
  "count_list (concat (map (\<lambda>a. concat (map (\<lambda>p. filter (Q p) procs) (pats a))) acts)) rp =
     count_list procs rp * sum_list (map (\<lambda>a. length (filter (\<lambda>p. Q p rp) (pats a))) acts)"
  by (induction acts) (auto simp: count_matched_patterns distrib_left)

lemma match_patterns_bad:
  "p \<in> set ps \<Longrightarrow> C p = None \<Longrightarrow> procs \<noteq> [] \<Longrightarrow>
   match_patterns C M name ps procs res = Inl NilPointerDereference"
proof (induction ps arbitrary: res)
  case Nil
  then show ?case by simp
next
  case (Cons q ps)
  show ?case
  proof (cases "match_processes (C q) M name procs res")
    case (Inl e)
    then show ?thesis by (cases e) simp
  next
    case (Inr res1)
    then have "C q \<noteq> None"
      using Cons.prems(3) match_processes_None [of M name procs res] by (cases "C q") auto
    then have "p \<in> set ps" using Cons.prems by auto
    then show ?thesis using Cons.IH Cons.prems Inr by simp
  qed
qed

lemma match_activities_bad:
  "a \<in> set acts \<Longrightarrow> p \<in> set (ProcessPatterns a) \<Longrightarrow> C p = None \<Longrightarrow> procs \<noteq> [] \<Longrightarrow>
   match_activities C M acts procs res = Inl NilPointerDereference"
proof (induction acts arbitrary: res)
  case Nil
  then show ?case by simp
next
  case (Cons b acts)
  show ?case
  proof (cases "match_patterns C M (Name b) (ProcessPatterns b) procs res")
    case (Inl e)
    then show ?thesis by (cases e) simp
  next
    case (Inr res1)
    then have "a \<noteq> b" using Cons.prems match_patterns_bad [of p "ProcessPatterns b" C procs M "Name b" res] by auto
    then have "a \<in> set acts" using Cons.prems by auto
    then show ?thesis using Cons.IH Cons.prems Inr by simp
  qed
qed

lemma getRunningProcessesPerActivity_bad_pattern:
  "a \<in> set (Activities c) \<Longrightarrow> p \<in> set (ProcessPatterns a) \<Longrightarrow> Compile p = None \<Longrightarrow>
   processes \<noteq> [] \<Longrightarrow>
   getRunningProcessesPerActivity Compile MatchString c processes = Inl NilPointerDereference"
  by (simp add: getRunningProcessesPerActivity_def match_activities_bad)

text \<open>
  C8. When every pattern of every rule compiles, the classification returns a map in which
  a process is listed under the name of every rule that has a pattern matching it, whatever
  other rules it matches; and nothing is deduplicated: under a name, a process occurs once
  for each of its occurrences in the process list and each pattern, of a rule of that name,
  that matches it. A process listed once that matches two patterns of a rule is listed
  twice under that rule.
\<close>

theorem classification_not_exclusive_no_dedup:
  assumes "\<forall>a\<in>set (Activities c). \<forall>p\<in>set (ProcessPatterns a). Compile p \<noteq> None"
  shows "\<exists>res. getRunningProcessesPerActivity Compile MatchString c processes = Inr res \<and>
           is_gomap res \<and>
           (\<forall>a\<in>set (Activities c). \<forall>p\<in>set (ProcessPatterns a). \<forall>rp\<in>set processes.
              matches Compile MatchString p rp \<longrightarrow> rp \<in> set (procs_of res (Name a))) \<and>
           (\<forall>n rp. count_list (procs_of res n) rp =
              count_list processes rp *
              (\<Sum>a\<leftarrow>filter (\<lambda>a. Name a = n) (Activities c).
                 length (filter (\<lambda>p. matches Compile MatchString p rp) (ProcessPatterns a))))"
proof -
  from match_activities_ok [of "[]" "Activities c" Compile MatchString processes] assms
  obtain res where
    r: "match_activities Compile MatchString (Activities c) processes [] = Inr res"
       "distinct (map fst res)"
       "\<forall>n. procs_of res n =
          concat (map (\<lambda>a. concat (map (\<lambda>p. filter (matches Compile MatchString p) processes)
                                     (ProcessPatterns a)))
                    (filter (\<lambda>a. Name a = n) (Activities c)))"
    by (auto simp: procs_of_Nil)
  have mem: "\<forall>a\<in>set (Activities c). \<forall>p\<in>set (ProcessPatterns a). \<forall>rp\<in>set processes.
               matches Compile MatchString p rp \<longrightarrow> rp \<in> set (procs_of res (Name a))"
    using r(3) by auto
  have cnt: "\<forall>n rp. count_list (procs_of res n) rp =
              count_list processes rp *
              (\<Sum>a\<leftarrow>filter (\<lambda>a. Name a = n) (Activities c).
                 length (filter (\<lambda>p. matches Compile MatchString p rp) (ProcessPatterns a)))"
    using r(3) by (simp add: count_matched_activities)
  show ?thesis
    using r(1,2) mem cnt by (simp add: getRunningProcessesPerActivity_def is_gomap_def)
qed


theorem classification_not_exclusive_no_dedup_witness:
  "list_all (\<lambda>a. list_all (\<lambda>p. ex_Compile p \<noteq> None) (ProcessPatterns a))
     (Activities ex_two_rules) \<and>
   (\<exists>res. getRunningProcessesPerActivity ex_Compile ex_MatchString ex_two_rules [ex_process]
            = Inr res \<and>
          is_gomap res \<and>
          count_list (procs_of res ''GTA'') ex_process = 2 \<and>
          ex_process \<in> set (procs_of res ''Games''))"
proof -
  have h: "\<forall>a\<in>set (Activities ex_two_rules). \<forall>p\<in>set (ProcessPatterns a). ex_Compile p \<noteq> None"
    by (simp add: ex_two_rules_def ex_Compile_def)
  from classification_not_exclusive_no_dedup [OF h, of ex_MatchString "[ex_process]"]
  obtain res where
    r: "getRunningProcessesPerActivity ex_Compile ex_MatchString ex_two_rules [ex_process]
          = Inr res"
       "is_gomap res"
    and mem: "\<forall>a\<in>set (Activities ex_two_rules). \<forall>p\<in>set (ProcessPatterns a).
                \<forall>rp\<in>set [ex_process].
                  matches ex_Compile ex_MatchString p rp \<longrightarrow> rp \<in> set (procs_of res (Name a))"
    and cnt: "\<forall>n rp. count_list (procs_of res n) rp =
                count_list [ex_process] rp *
                (\<Sum>a\<leftarrow>filter (\<lambda>a. Name a = n) (Activities ex_two_rules).
                   length (filter (\<lambda>p. matches ex_Compile ex_MatchString p rp)
                             (ProcessPatterns a)))"
    by blast
  have m1: "matches ex_Compile ex_MatchString ''GTA'' ex_process"
    by (simp add: matches_def ex_Compile_def ex_MatchString_def ex_process_def)
  have m2: "matches ex_Compile ex_MatchString ''exe'' ex_process"
    by (simp add: matches_def ex_Compile_def ex_MatchString_def ex_process_def)
  have "count_list (procs_of res ''GTA'') ex_process = 2"
    using cnt [rule_format, of "''GTA''" ex_process] m1 m2 by (simp add: ex_two_rules_def)
  moreover have "ex_process \<in> set (procs_of res ''Games'')"
    using mem m1 by (simp add: ex_two_rules_def)
  moreover have "list_all (\<lambda>a. list_all (\<lambda>p. ex_Compile p \<noteq> None) (ProcessPatterns a))
                   (Activities ex_two_rules)"
    using h by (simp add: list_all_iff)
  ultimately show ?thesis using r by blast
qed

text \<open>
  C7. The code drops the error of \<^verbatim>\<open>regexp.Compile\<close> and calls \<^verbatim>\<open>MatchString\<close>
  on the nil expression for the first process of the list: with the rule \<open>GTA\<close> holding
  the patterns \<^verbatim>\<open>GTA\<close> and \<^verbatim>\<open>(\<close> and one running process, the classification
  does not complete, it panics, and the scan with it.
\<close>

theorem malformed_pattern_panics:
  "getRunningProcessesPerActivity ex_Compile ex_MatchString ex_bad_pattern [ex_process]
     = Inl NilPointerDereference \<and>
   scan ex_Compile ex_MatchString ex_bad_pattern [ex_process] (ex_time 20 31)
     = Inl NilPointerDereference"
  by (simp add: scan_def getRunningProcessesPerActivity_def ex_bad_pattern_def ex_Compile_def
      ex_MatchString_def ex_process_def procs_of_def)

section \<open>Counters\<close>

lemma bump_counters_apply:
  "distinct ks \<Longrightarrow>
   bump_counters si ks ad a =
     (if a \<in> set ks then Some ((case ad a of None \<Rightarrow> 0 | Some d \<Rightarrow> d) + si) else ad a)"
  by (induction ks arbitrary: ad) (auto simp: Let_def)



lemma dayRollover_fields [simp]:
  "SamplingInterval (dayRollover c now) = SamplingInterval c"
  "Activities (dayRollover c now) = Activities c"
  "LastControlTime (dayRollover c now) = LastControlTime c"
  by (simp_all add: dayRollover_def)

lemma updateActivityCounters_LastControlTime:
  "LastControlTime (updateActivityCounters c rp now) = now"
  by (simp add: updateActivityCounters_def Let_def)

lemma updateActivityCounters_empty:
  "ActivityDuration (updateActivityCounters c [] now) = ActivityDuration (dayRollover c now)"
  by (simp add: updateActivityCounters_def Let_def)

lemma updateActivityCounters_nonempty:
  "rp \<noteq> [] \<Longrightarrow>
   ActivityDuration (updateActivityCounters c rp now) =
     (ActivityDuration (dayRollover c now))
       (Weekday now \<mapsto>
          bump_counters (SamplingInterval c) (map fst rp)
            (case ActivityDuration (dayRollover c now) (Weekday now) of
               None \<Rightarrow> Map.empty | Some ad \<Rightarrow> ad))"
  by (simp add: updateActivityCounters_def Let_def)

section \<open>Control\<close>

lemma find_snoc: "find P (xs @ [x]) = (case find P xs of Some y \<Rightarrow> Some y | None \<Rightarrow> if P x then Some x else None)"
  by (induction xs) auto

lemma resolved_schedule_getOrCreate:
  "resolved_schedule (fst (getOrCreateActivityRule c b)) day a = resolved_schedule c day a"
  by (auto simp: resolved_schedule_def getOrCreateActivityRule_def find_snoc Let_def split: option.splits)

lemma foundValidPeriod_iff:
  "foundValidPeriod t aps f \<longleftrightarrow> f \<or> (\<exists>ap\<in>set aps. Begin ap \<le> t \<and> t < End ap)"
  by (induction aps arbitrary: f) auto

lemma control_activity_fst:
  "fst (control_activity day t ad rp a c) = fst (getOrCreateActivityRule c a)"
  by (simp add: control_activity_def Let_def split: prod.splits option.splits)

lemma control_activity_kills:
  "snd (control_activity day t ad rp a c) =
     (case resolved_schedule c day a of
        None \<Rightarrow> [(a, procs_of rp a, ''Activity not allowed to be done on this day'')]
      | Some s \<Rightarrow>
          if sint (MaxDuration s) < sint (case ad a of None \<Rightarrow> 0 | Some d \<Rightarrow> d)
          then [(a, procs_of rp a, ''Activity duration above threshold for this day'')]
          else if \<not> (\<exists>ap\<in>set (AllowedPeriods s). Begin ap \<le> t \<and> t < End ap)
          then [(a, procs_of rp a, ''Activity not allowed to be done during this time range'')]
          else [])"
  by (auto simp: control_activity_def resolved_schedule_def Let_def foundValidPeriod_iff
      split: prod.splits option.splits)

lemma control_activity_kills_name:
  "k \<in> set (snd (control_activity day t ad rp a c)) \<Longrightarrow> fst k = a"
  by (auto simp: control_activity_kills split: option.splits if_splits)

lemma control_activity_kills_cong:
  "resolved_schedule c' day a = resolved_schedule c day a \<Longrightarrow>
   snd (control_activity day t ad rp a c') = snd (control_activity day t ad rp a c)"
  by (simp add: control_activity_kills)

lemma control_loop_kills:
  "distinct ks \<Longrightarrow>
   filter (\<lambda>k. fst k = a) (snd (control_loop day t ad rp ks c)) =
     (if a \<in> set ks then snd (control_activity day t ad rp a c) else [])"
proof (induction ks arbitrary: c)
  case Nil
  then show ?case by simp
next
  case (Cons b ks)
  obtain c' kills where step: "control_activity day t ad rp b c = (c', kills)"
    by (cases "control_activity day t ad rp b c")
  obtain c'' kills' where rest: "control_loop day t ad rp ks c' = (c'', kills')"
    by (cases "control_loop day t ad rp ks c'")
  have c': "c' = fst (getOrCreateActivityRule c b)"
    using step control_activity_fst [of day t ad rp b c] by simp
  have names: "\<forall>k\<in>set kills. fst k = b"
    using step control_activity_kills_name [of _ day t ad rp b c] by auto
  have same: "snd (control_activity day t ad rp a c') = snd (control_activity day t ad rp a c)"
    by (rule control_activity_kills_cong) (simp add: c' resolved_schedule_getOrCreate)
  have ih: "filter (\<lambda>k. fst k = a) kills' =
              (if a \<in> set ks then snd (control_activity day t ad rp a c) else [])"
    using Cons.IH [of c'] Cons.prems rest same by simp
  show ?case
  proof (cases "a = b")
    case True
    then have "a \<notin> set ks" using Cons.prems by simp
    moreover have "filter (\<lambda>k. fst k = a) kills = kills"
      using names True by (simp add: filter_id_conv)
    ultimately show ?thesis using step rest ih True by simp
  next
    case False
    then have "filter (\<lambda>k. fst k = a) kills = []"
      using names by (auto simp: filter_empty_conv)
    then show ?thesis using step rest ih False by simp
  qed
qed


lemma controlActivities_no_bucket:
  "ActivityDuration c (Weekday (LastControlTime c)) = None \<Longrightarrow> controlActivities c rp = (c, [])"
  by (simp add: controlActivities_def Let_def)

lemma GetActivityDuration_bucket:
  "ActivityDuration c (Weekday (LastControlTime c)) = Some ad \<Longrightarrow>
   GetActivityDuration c activity = (case ad activity of None \<Rightarrow> 0 | Some d \<Rightarrow> d)"
  by (simp add: GetActivityDuration_def)

lemma controlActivities_kills_for:
  assumes "is_gomap rp" and "(activity, ps) \<in> set rp"
    and "ActivityDuration c (Weekday (LastControlTime c)) = Some ad"
  shows "filter (\<lambda>k. fst k = activity) (snd (controlActivities c rp)) =
     (case resolved_schedule c (Weekday (LastControlTime c)) activity of
        None \<Rightarrow> [(activity, ps, ''Activity not allowed to be done on this day'')]
      | Some s \<Rightarrow>
          if sint (MaxDuration s) < sint (GetActivityDuration c activity)
          then [(activity, ps, ''Activity duration above threshold for this day'')]
          else if \<not> (\<exists>ap\<in>set (AllowedPeriods s).
                        Begin ap \<le> Hour (LastControlTime c) * 100 + Minute (LastControlTime c) \<and>
                        Hour (LastControlTime c) * 100 + Minute (LastControlTime c) < End ap)
          then [(activity, ps, ''Activity not allowed to be done during this time range'')]
          else [])"
proof -
  have d: "distinct (map fst rp)" using assms(1) by (simp add: is_gomap_def)
  have m: "activity \<in> set (map fst rp)" using assms(2) by force
  have p: "procs_of rp activity = ps" using assms(1,2) by (rule procs_of_gomap)
  have k: "filter (\<lambda>k. fst k = activity) (snd (controlActivities c rp)) =
             snd (control_activity (Weekday (LastControlTime c))
                    (Hour (LastControlTime c) * 100 + Minute (LastControlTime c))
                    ad rp activity c)"
    using control_loop_kills [OF d, of activity "Weekday (LastControlTime c)"
        "Hour (LastControlTime c) * 100 + Minute (LastControlTime c)" ad rp c] m assms(3)
    by (simp add: controlActivities_def Let_def)
  show ?thesis
    unfolding k control_activity_kills p GetActivityDuration_bucket [OF assms(3)]
    by (rule refl)
qed

text \<open>
  C1. For an activity of the classified map, \<^verbatim>\<open>controlActivities\<close> calls
  \<^verbatim>\<open>KillRunningProcesses\<close> at most once. When the bucket of the current weekday exists,
  the calls for the activity are given by the first check that fails, in the order: no
  schedule for the weekday, accumulated duration above the maximum, no allowed period
  around the time of day; the call carries the activity name, the whole process list of the
  activity and the one reason of that check, and no check fails, no call.
\<close>

theorem controlActivities_single_ordered_kill:
  assumes "is_gomap rp" and "(activity, ps) \<in> set rp"
  shows "length (filter (\<lambda>k. fst k = activity) (snd (controlActivities c rp))) \<le> 1 \<and>
    (\<forall>ad. ActivityDuration c (Weekday (LastControlTime c)) = Some ad \<longrightarrow>
       filter (\<lambda>k. fst k = activity) (snd (controlActivities c rp)) =
         (case resolved_schedule c (Weekday (LastControlTime c)) activity of
            None \<Rightarrow> [(activity, ps, ''Activity not allowed to be done on this day'')]
          | Some s \<Rightarrow>
              if sint (MaxDuration s) < sint (GetActivityDuration c activity)
              then [(activity, ps, ''Activity duration above threshold for this day'')]
              else if \<not> (\<exists>ap\<in>set (AllowedPeriods s).
                    Begin ap \<le> Hour (LastControlTime c) * 100 + Minute (LastControlTime c) \<and>
                    Hour (LastControlTime c) * 100 + Minute (LastControlTime c) < End ap)
              then [(activity, ps, ''Activity not allowed to be done during this time range'')]
              else []))"
proof (cases "ActivityDuration c (Weekday (LastControlTime c))")
  case None
  then show ?thesis by (simp add: controlActivities_no_bucket)
next
  case (Some ad)
  show ?thesis
    using controlActivities_kills_for [OF assms Some] Some
    by (simp split: option.splits)
qed

theorem controlActivities_single_ordered_kill_witness:
  "is_gomap ex_rp \<and> (''GTA'', [ex_process]) \<in> set ex_rp \<and>
   ActivityDuration (ex_controller (ex_time 18 0) (16 * minute)) Sunday
     = Some [''GTA'' \<mapsto> 16 * minute] \<and>
   filter (\<lambda>k. fst k = ''GTA'')
     (snd (controlActivities (ex_controller (ex_time 18 0) (16 * minute)) ex_rp))
     = [(''GTA'', [ex_process], ''Activity duration above threshold for this day'')]"
  using controlActivities_single_ordered_kill
    [of ex_rp "''GTA''" "[ex_process]" "ex_controller (ex_time 18 0) (16 * minute)"]
  by (simp add: is_gomap_def ex_rp_def ex_controller_def ex_time_def resolved_schedule_def
      getOrCreateActivityRule_def ex_rule_def ex_schedule_def GetActivityDuration_def minute_def)


text \<open>
  C2. For an activity of the classified map whose rule has a schedule for the current
  weekday, \<^verbatim>\<open>controlActivities\<close> issues a kill with the duration reason exactly when the
  accumulated duration of the current weekday is strictly greater (as signed 64-bit
  numbers) than the maximum of the schedule. At the maximum itself there is no such kill;
  above it the one kill of the activity carries the duration reason, whatever the allowed
  periods are.
\<close>

theorem controlActivities_duration_kill:
  assumes "is_gomap rp" and "(activity, ps) \<in> set rp"
    and "ActivityDuration c (Weekday (LastControlTime c)) = Some ad"
    and "resolved_schedule c (Weekday (LastControlTime c)) activity = Some s"
  shows "((\<exists>k\<in>set (snd (controlActivities c rp)).
             fst k = activity \<and>
             snd (snd k) = ''Activity duration above threshold for this day'')
          \<longleftrightarrow> sint (MaxDuration s) < sint (GetActivityDuration c activity)) \<and>
         (GetActivityDuration c activity = MaxDuration s \<longrightarrow>
            (\<forall>k\<in>set (snd (controlActivities c rp)).
               fst k = activity \<longrightarrow>
               snd (snd k) \<noteq> ''Activity duration above threshold for this day'')) \<and>
         (sint (MaxDuration s) < sint (GetActivityDuration c activity) \<longrightarrow>
            filter (\<lambda>k. fst k = activity) (snd (controlActivities c rp)) =
              [(activity, ps, ''Activity duration above threshold for this day'')])"
proof -
  let ?kills = "snd (controlActivities c rp)"
  let ?F = "filter (\<lambda>k. fst k = activity) ?kills"
  let ?r = "''Activity duration above threshold for this day''"
  have F: "?F =
     (if sint (MaxDuration s) < sint (GetActivityDuration c activity)
      then [(activity, ps, ?r)]
      else if \<not> (\<exists>ap\<in>set (AllowedPeriods s).
                    Begin ap \<le> Hour (LastControlTime c) * 100 + Minute (LastControlTime c) \<and>
                    Hour (LastControlTime c) * 100 + Minute (LastControlTime c) < End ap)
      then [(activity, ps, ''Activity not allowed to be done during this time range'')]
      else [])"
    using controlActivities_kills_for [OF assms(1-3)] assms(4) by simp
  have set_F: "(\<exists>k\<in>set ?kills. fst k = activity \<and> snd (snd k) = ?r)
                 \<longleftrightarrow> (\<exists>k\<in>set ?F. snd (snd k) = ?r)"
    unfolding set_filter by blast
  have iff: "(\<exists>k\<in>set ?F. snd (snd k) = ?r)
               \<longleftrightarrow> sint (MaxDuration s) < sint (GetActivityDuration c activity)"
    unfolding F by simp
  have eq: "GetActivityDuration c activity = MaxDuration s \<longrightarrow>
              (\<forall>k\<in>set ?kills. fst k = activity \<longrightarrow> snd (snd k) \<noteq> ?r)"
    using set_F iff by auto
  have above: "sint (MaxDuration s) < sint (GetActivityDuration c activity) \<longrightarrow>
                 ?F = [(activity, ps, ?r)]"
    unfolding F by simp
  show ?thesis using set_F iff eq above by blast
qed

theorem controlActivities_duration_kill_witness:
  "is_gomap ex_rp \<and> (''GTA'', [ex_process]) \<in> set ex_rp \<and>
   ActivityDuration (ex_controller (ex_time 20 30) (15 * minute)) Sunday
     = Some [''GTA'' \<mapsto> 15 * minute] \<and>
   resolved_schedule (ex_controller (ex_time 20 30) (15 * minute)) Sunday ''GTA''
     = Some ex_schedule \<and>
   GetActivityDuration (ex_controller (ex_time 20 30) (15 * minute)) ''GTA''
     = MaxDuration ex_schedule \<and>
   \<not> (\<exists>k\<in>set (snd (controlActivities (ex_controller (ex_time 20 30) (15 * minute)) ex_rp)).
        fst k = ''GTA'' \<and> snd (snd k) = ''Activity duration above threshold for this day'') \<and>
   sint (MaxDuration ex_schedule)
     < sint (GetActivityDuration (ex_controller (ex_time 20 30) (16 * minute)) ''GTA'') \<and>
   filter (\<lambda>k. fst k = ''GTA'')
     (snd (controlActivities (ex_controller (ex_time 20 30) (16 * minute)) ex_rp))
     = [(''GTA'', [ex_process], ''Activity duration above threshold for this day'')]"
proof -
  have g: "is_gomap ex_rp" and m: "(''GTA'', [ex_process]) \<in> set ex_rp"
    by (simp_all add: is_gomap_def ex_rp_def)
  have b15: "ActivityDuration (ex_controller (ex_time 20 30) (15 * minute))
               (Weekday (LastControlTime (ex_controller (ex_time 20 30) (15 * minute))))
             = Some [''GTA'' \<mapsto> 15 * minute]"
    and b16: "ActivityDuration (ex_controller (ex_time 20 30) (16 * minute))
               (Weekday (LastControlTime (ex_controller (ex_time 20 30) (16 * minute))))
             = Some [''GTA'' \<mapsto> 16 * minute]"
    by (simp_all add: ex_controller_def ex_time_def)
  have s15: "resolved_schedule (ex_controller (ex_time 20 30) (15 * minute))
               (Weekday (LastControlTime (ex_controller (ex_time 20 30) (15 * minute)))) ''GTA''
             = Some ex_schedule"
    and s16: "resolved_schedule (ex_controller (ex_time 20 30) (16 * minute))
               (Weekday (LastControlTime (ex_controller (ex_time 20 30) (16 * minute)))) ''GTA''
             = Some ex_schedule"
    by (simp_all add: resolved_schedule_def getOrCreateActivityRule_def ex_controller_def
        ex_time_def ex_rule_def)
  have d15: "GetActivityDuration (ex_controller (ex_time 20 30) (15 * minute)) ''GTA''
               = MaxDuration ex_schedule"
    by (simp add: GetActivityDuration_def ex_controller_def ex_schedule_def)
  have d16: "sint (MaxDuration ex_schedule)
               < sint (GetActivityDuration (ex_controller (ex_time 20 30) (16 * minute)) ''GTA'')"
    by (simp add: GetActivityDuration_def ex_controller_def ex_schedule_def minute_def)
  have wd: "Weekday (LastControlTime (ex_controller (ex_time 20 30) (15 * minute))) = Sunday"
    by (simp add: ex_controller_def ex_time_def)
  show ?thesis
    using controlActivities_duration_kill [OF g m b15 s15]
      controlActivities_duration_kill [OF g m b16 s16] g m b15 s15 d15 d16 wd
    by simp
qed

text \<open>
  C5. The test of one period in \<^verbatim>\<open>controlActivities\<close> holds exactly when
  \<open>Begin \<le> t\<close> and \<open>t < End\<close>, so a period whose end is not after its beginning holds at
  no time; the loop over the periods finds a valid period exactly when one of them holds.
  For an activity of the classified map with a schedule for the current weekday and an
  accumulated duration not above the maximum, a kill with the time range reason is issued
  exactly when the time of day is in none of the periods of that schedule.
\<close>

theorem time_window_half_open:
  "(foundValidPeriod t [ap] False \<longleftrightarrow> Begin ap \<le> t \<and> t < End ap) \<and>
   (End ap \<le> Begin ap \<longrightarrow> \<not> foundValidPeriod t [ap] False) \<and>
   (foundValidPeriod t aps False \<longleftrightarrow> (\<exists>ap\<in>set aps. Begin ap \<le> t \<and> t < End ap)) \<and>
   (is_gomap rp \<and> (activity, ps) \<in> set rp \<and>
    ActivityDuration c (Weekday (LastControlTime c)) = Some ad \<and>
    resolved_schedule c (Weekday (LastControlTime c)) activity = Some s \<and>
    \<not> sint (MaxDuration s) < sint (GetActivityDuration c activity) \<longrightarrow>
      ((\<exists>k\<in>set (snd (controlActivities c rp)).
          fst k = activity \<and>
          snd (snd k) = ''Activity not allowed to be done during this time range'')
       \<longleftrightarrow> (\<forall>ap\<in>set (AllowedPeriods s).
              \<not> (Begin ap \<le> Hour (LastControlTime c) * 100 + Minute (LastControlTime c) \<and>
                 Hour (LastControlTime c) * 100 + Minute (LastControlTime c) < End ap))) \<and>
      filter (\<lambda>k. fst k = activity) (snd (controlActivities c rp)) =
        (if \<forall>ap\<in>set (AllowedPeriods s).
              \<not> (Begin ap \<le> Hour (LastControlTime c) * 100 + Minute (LastControlTime c) \<and>
                 Hour (LastControlTime c) * 100 + Minute (LastControlTime c) < End ap)
         then [(activity, ps, ''Activity not allowed to be done during this time range'')]
         else []))"
proof -
  have one: "foundValidPeriod t [ap] False \<longleftrightarrow> Begin ap \<le> t \<and> t < End ap"
    by simp
  have never: "End ap \<le> Begin ap \<longrightarrow> \<not> foundValidPeriod t [ap] False"
    by simp
  have union: "foundValidPeriod t aps False \<longleftrightarrow> (\<exists>ap\<in>set aps. Begin ap \<le> t \<and> t < End ap)"
    by (simp add: foundValidPeriod_iff)
  have kill: ?thesis if h: "is_gomap rp" "(activity, ps) \<in> set rp"
      "ActivityDuration c (Weekday (LastControlTime c)) = Some ad"
      "resolved_schedule c (Weekday (LastControlTime c)) activity = Some s"
      "\<not> sint (MaxDuration s) < sint (GetActivityDuration c activity)"
  proof -
    let ?kills = "snd (controlActivities c rp)"
    let ?F = "filter (\<lambda>k. fst k = activity) ?kills"
    let ?r = "''Activity not allowed to be done during this time range''"
    let ?out = "\<forall>ap\<in>set (AllowedPeriods s).
              \<not> (Begin ap \<le> Hour (LastControlTime c) * 100 + Minute (LastControlTime c) \<and>
                 Hour (LastControlTime c) * 100 + Minute (LastControlTime c) < End ap)"
    have F: "?F = (if ?out then [(activity, ps, ?r)] else [])"
      using controlActivities_kills_for [OF h(1-3)] h(4,5) by simp
    have set_F: "(\<exists>k\<in>set ?kills. fst k = activity \<and> snd (snd k) = ?r)
                   \<longleftrightarrow> (\<exists>k\<in>set ?F. snd (snd k) = ?r)"
      unfolding set_filter by blast
    have iff: "(\<exists>k\<in>set ?F. snd (snd k) = ?r) \<longleftrightarrow> ?out"
      unfolding F by simp
    show ?thesis using one never union set_F iff F by blast
  qed
  show ?thesis using one never union kill by blast
qed

theorem time_window_half_open_witness:
  "End \<lparr>Begin = 2100, End = 2000\<rparr> \<le> Begin \<lparr>Begin = 2100, End = 2000\<rparr> \<and>
   \<not> foundValidPeriod 2030 [\<lparr>Begin = 2100, End = 2000\<rparr>] False \<and>
   is_gomap ex_rp \<and> (''GTA'', [ex_process]) \<in> set ex_rp \<and>
   ActivityDuration (ex_controller (ex_time 21 0) (2 * minute)) Sunday
     = Some [''GTA'' \<mapsto> 2 * minute] \<and>
   resolved_schedule (ex_controller (ex_time 21 0) (2 * minute)) Sunday ''GTA''
     = Some ex_schedule \<and>
   \<not> sint (MaxDuration ex_schedule)
       < sint (GetActivityDuration (ex_controller (ex_time 21 0) (2 * minute)) ''GTA'') \<and>
   filter (\<lambda>k. fst k = ''GTA'')
     (snd (controlActivities (ex_controller (ex_time 21 0) (2 * minute)) ex_rp))
     = [(''GTA'', [ex_process], ''Activity not allowed to be done during this time range'')]"
  using time_window_half_open
    [of 2030 "\<lparr>Begin = 2100, End = 2000\<rparr>" "[]" ex_rp "''GTA''" "[ex_process]"
        "ex_controller (ex_time 21 0) (2 * minute)" "[''GTA'' \<mapsto> 2 * minute]" ex_schedule]
  by (simp add: is_gomap_def ex_rp_def ex_controller_def ex_time_def resolved_schedule_def
      getOrCreateActivityRule_def ex_rule_def ex_schedule_def GetActivityDuration_def minute_def)


text \<open>
  C6. For an activity of the classified map that \<^verbatim>\<open>controlActivities\<close> evaluates (the
  bucket of the current weekday exists) and whose resolved rule has no schedule for the
  current weekday, the calls of \<^verbatim>\<open>KillRunningProcesses\<close> for it are exactly one, with
  the day reason: no duration or period check adds another. A name that no rule carries
  resolves to a new rule with no pattern and an empty schedule map, hence to no schedule
  for any weekday: an unknown activity is killed.
\<close>

theorem controlActivities_no_schedule_kill:
  assumes "is_gomap rp" and "(activity, ps) \<in> set rp"
    and "ActivityDuration c (Weekday (LastControlTime c)) = Some ad"
  shows "(resolved_schedule c (Weekday (LastControlTime c)) activity = None \<longrightarrow>
            filter (\<lambda>k. fst k = activity) (snd (controlActivities c rp)) =
              [(activity, ps, ''Activity not allowed to be done on this day'')]) \<and>
         (find (\<lambda>a. Name a = activity) (Activities c) = None \<longrightarrow>
            snd (getOrCreateActivityRule c activity) =
              \<lparr>Name = activity, ProcessPatterns = [], AllowedSchedules = Map.empty\<rparr> \<and>
            (\<forall>day. resolved_schedule c day activity = None) \<and>
            filter (\<lambda>k. fst k = activity) (snd (controlActivities c rp)) =
              [(activity, ps, ''Activity not allowed to be done on this day'')])"
proof -
  have none: "filter (\<lambda>k. fst k = activity) (snd (controlActivities c rp)) =
                [(activity, ps, ''Activity not allowed to be done on this day'')]"
    if "resolved_schedule c (Weekday (LastControlTime c)) activity = None"
    using controlActivities_kills_for [OF assms] that by simp
  have new: "snd (getOrCreateActivityRule c activity) =
               \<lparr>Name = activity, ProcessPatterns = [], AllowedSchedules = Map.empty\<rparr>"
    if "find (\<lambda>a. Name a = activity) (Activities c) = None"
    using that by (simp add: getOrCreateActivityRule_def Let_def)
  have unknown: "\<forall>day. resolved_schedule c day activity = None"
    if "find (\<lambda>a. Name a = activity) (Activities c) = None"
    using new [OF that] by (simp add: resolved_schedule_def)
  show ?thesis using none new unknown by (intro conjI impI) simp_all
qed

theorem controlActivities_no_schedule_kill_witness:
  "is_gomap ex_unknown_rp \<and>
   (''Steam'', [\<lparr>Pid = 2, Path = ''C:/Steam.exe''\<rparr>]) \<in> set ex_unknown_rp \<and>
   ActivityDuration (ex_controller (ex_time 20 30) minute) Sunday = Some [''GTA'' \<mapsto> minute] \<and>
   find (\<lambda>a. Name a = ''Steam'') (Activities (ex_controller (ex_time 20 30) minute)) = None \<and>
   resolved_schedule (ex_controller (ex_time 20 30) minute) Sunday ''Steam'' = None \<and>
   filter (\<lambda>k. fst k = ''Steam'')
     (snd (controlActivities (ex_controller (ex_time 20 30) minute) ex_unknown_rp))
     = [(''Steam'', [\<lparr>Pid = 2, Path = ''C:/Steam.exe''\<rparr>],
         ''Activity not allowed to be done on this day'')]"
  using controlActivities_no_schedule_kill
    [of ex_unknown_rp "''Steam''" "[\<lparr>Pid = 2, Path = ''C:/Steam.exe''\<rparr>]"
        "ex_controller (ex_time 20 30) minute" "[''GTA'' \<mapsto> minute]"]
  by (simp add: is_gomap_def ex_unknown_rp_def ex_controller_def ex_time_def ex_rule_def)

section \<open>Counter update\<close>

lemma GetActivityDuration_updateActivityCounters:
  assumes "is_gomap rp" and "rp \<noteq> []"
  shows "GetActivityDuration (updateActivityCounters c rp now) a =
     (if a \<in> fst ` set rp
      then GetActivityDuration ((dayRollover c now)\<lparr>LastControlTime := now\<rparr>) a
             + SamplingInterval c
      else GetActivityDuration ((dayRollover c now)\<lparr>LastControlTime := now\<rparr>) a)"
proof -
  have d: "distinct (map fst rp)" using assms(1) by (simp add: is_gomap_def)
  show ?thesis
    by (simp add: GetActivityDuration_def updateActivityCounters_LastControlTime
        updateActivityCounters_nonempty [OF assms(2)] bump_counters_apply [OF d]
        split: option.splits)
qed

text \<open>
  C3, with the counters compared to the state after the day rollover. A call of \<^verbatim>\<open>updateActivityCounters\<close> first runs the day rollover and
  sets \<^verbatim>\<open>LastControlTime\<close>; the counters are then compared with that intermediate state.
  With a non-empty classified map, the counter of every key, read for the weekday of
  \<open>now\<close>, is one sampling interval above its value in the intermediate state, whatever the
  process list of the key; the counters of the other names and the buckets of the other
  weekdays are those of the intermediate state. With an empty classified map the buckets
  are those of the intermediate state: none is created. When the calendar date of \<open>now\<close>
  is that of \<^verbatim>\<open>LastControlTime\<close>, the intermediate buckets are the buckets before the
  call; when it differs, every counter read for the weekday of \<open>now\<close> is zero in the
  intermediate state.
\<close>

theorem updateActivityCounters_one_interval:
  assumes "is_gomap rp"
  shows "(rp \<noteq> [] \<longrightarrow>
            (\<forall>a ps. (a, ps) \<in> set rp \<longrightarrow>
               GetActivityDuration (updateActivityCounters c rp now) a =
                 GetActivityDuration ((dayRollover c now)\<lparr>LastControlTime := now\<rparr>) a
                   + SamplingInterval c) \<and>
            (\<forall>a. a \<notin> fst ` set rp \<longrightarrow>
               GetActivityDuration (updateActivityCounters c rp now) a =
                 GetActivityDuration ((dayRollover c now)\<lparr>LastControlTime := now\<rparr>) a) \<and>
            (\<forall>d. d \<noteq> Weekday now \<longrightarrow>
               ActivityDuration (updateActivityCounters c rp now) d =
                 ActivityDuration (dayRollover c now) d)) \<and>
         (rp = [] \<longrightarrow>
            ActivityDuration (updateActivityCounters c rp now) =
              ActivityDuration (dayRollover c now)) \<and>
         (Year now = Year (LastControlTime c) \<and> Month now = Month (LastControlTime c) \<and>
          Day now = Day (LastControlTime c) \<longrightarrow>
            ActivityDuration (dayRollover c now) = ActivityDuration c) \<and>
         (Year now \<noteq> Year (LastControlTime c) \<or> Month now \<noteq> Month (LastControlTime c) \<or>
          Day now \<noteq> Day (LastControlTime c) \<longrightarrow>
            (\<forall>a. GetActivityDuration ((dayRollover c now)\<lparr>LastControlTime := now\<rparr>) a = 0))"
proof -
  have keys: "\<forall>a ps. (a, ps) \<in> set rp \<longrightarrow>
               GetActivityDuration (updateActivityCounters c rp now) a =
                 GetActivityDuration ((dayRollover c now)\<lparr>LastControlTime := now\<rparr>) a
                   + SamplingInterval c" if "rp \<noteq> []"
  proof (intro allI impI)
    fix a ps
    assume "(a, ps) \<in> set rp"
    then have "a \<in> fst ` set rp" by force
    then show "GetActivityDuration (updateActivityCounters c rp now) a =
                 GetActivityDuration ((dayRollover c now)\<lparr>LastControlTime := now\<rparr>) a
                   + SamplingInterval c"
      using GetActivityDuration_updateActivityCounters [OF assms that] by simp
  qed
  have others: "\<forall>a. a \<notin> fst ` set rp \<longrightarrow>
               GetActivityDuration (updateActivityCounters c rp now) a =
                 GetActivityDuration ((dayRollover c now)\<lparr>LastControlTime := now\<rparr>) a"
    if "rp \<noteq> []"
    using GetActivityDuration_updateActivityCounters [OF assms that] by simp
  have days: "\<forall>d. d \<noteq> Weekday now \<longrightarrow>
               ActivityDuration (updateActivityCounters c rp now) d =
                 ActivityDuration (dayRollover c now) d" if "rp \<noteq> []"
    by (simp add: updateActivityCounters_nonempty [OF that])
  have empty: "rp = [] \<longrightarrow>
            ActivityDuration (updateActivityCounters c rp now) =
              ActivityDuration (dayRollover c now)"
    by (simp add: updateActivityCounters_empty)
  have same: "Year now = Year (LastControlTime c) \<and> Month now = Month (LastControlTime c) \<and>
          Day now = Day (LastControlTime c) \<longrightarrow>
            ActivityDuration (dayRollover c now) = ActivityDuration c"
    by (simp add: dayRollover_def)
  have zero: "Year now \<noteq> Year (LastControlTime c) \<or> Month now \<noteq> Month (LastControlTime c) \<or>
          Day now \<noteq> Day (LastControlTime c) \<longrightarrow>
            (\<forall>a. GetActivityDuration ((dayRollover c now)\<lparr>LastControlTime := now\<rparr>) a = 0)"
    by (auto simp: dayRollover_def GetActivityDuration_def)
  show ?thesis using keys others days empty same zero by blast
qed


theorem updateActivityCounters_one_interval_witness:
  "is_gomap ex_rp \<and> ex_rp \<noteq> [] \<and> (''GTA'', [ex_process]) \<in> set ex_rp \<and>
   Year (ex_time 20 31) = Year (LastControlTime (ex_controller (ex_time 20 30) (14 * minute))) \<and>
   Month (ex_time 20 31) = Month (LastControlTime (ex_controller (ex_time 20 30) (14 * minute))) \<and>
   Day (ex_time 20 31) = Day (LastControlTime (ex_controller (ex_time 20 30) (14 * minute))) \<and>
   GetActivityDuration
     (updateActivityCounters (ex_controller (ex_time 20 30) (14 * minute)) ex_rp (ex_time 20 31))
     ''GTA'' = 15 * minute \<and>
   GetActivityDuration
     (updateActivityCounters (ex_controller (ex_time 20 30) (14 * minute)) ex_unknown_rp
        (ex_time 20 31))
     ''GTA'' = 14 * minute \<and>
   is_gomap ([] :: classified) \<and>
   Month (ex_time 20 30) \<noteq> Month (LastControlTime (ex_controller ex_week_before (14 * minute))) \<and>
   ActivityDuration
     (updateActivityCounters (ex_controller ex_week_before (14 * minute)) [] (ex_time 20 30))
     = Map.empty"
proof -
  have g: "is_gomap ex_rp" and gu: "is_gomap ex_unknown_rp" and ge: "is_gomap ([] :: classified)"
    by (simp_all add: is_gomap_def ex_rp_def ex_unknown_rp_def)
  have rolled: "ActivityDuration (dayRollover (ex_controller ex_week_before (14 * minute))
                  (ex_time 20 30)) = Map.empty"
    by (simp add: dayRollover_def ex_controller_def ex_week_before_def ex_time_def)
  show ?thesis
    using updateActivityCounters_one_interval
        [OF g, of "ex_controller (ex_time 20 30) (14 * minute)" "ex_time 20 31"]
      updateActivityCounters_one_interval
        [OF gu, of "ex_controller (ex_time 20 30) (14 * minute)" "ex_time 20 31"]
      updateActivityCounters_one_interval
        [OF ge, of "ex_controller ex_week_before (14 * minute)" "ex_time 20 30"]
      g ge rolled
    by (simp add: ex_rp_def ex_unknown_rp_def ex_controller_def ex_time_def ex_week_before_def
        dayRollover_def GetActivityDuration_def minute_def)
qed

text \<open>
  C3, as stated, fails on a call that rolls the day over. The state was last controlled on
  Sunday 2026-10-25 with fourteen minutes of \<open>GTA\<close> in the Sunday bucket, and the call
  is made on Sunday 2026-11-01. With an empty classified map the counter goes from fourteen
  minutes to zero; with \<open>GTA\<close> in the classified map it goes to one minute, not to
  fifteen.
\<close>

theorem updateActivityCounters_one_interval_counterexample:
  "GetActivityDuration (ex_controller ex_week_before (14 * minute)) ''GTA'' = 14 * minute \<and>
   GetActivityDuration
     (updateActivityCounters (ex_controller ex_week_before (14 * minute)) [] (ex_time 20 30))
     ''GTA'' = 0 \<and>
   (0 :: duration) \<noteq> 14 * minute \<and>
   GetActivityDuration
     (updateActivityCounters (ex_controller ex_week_before (14 * minute)) ex_rp (ex_time 20 30))
     ''GTA'' = minute \<and>
   minute \<noteq> 14 * minute + SamplingInterval (ex_controller ex_week_before (14 * minute))"
  by (simp add: GetActivityDuration_def updateActivityCounters_def dayRollover_def Let_def
      ex_controller_def ex_week_before_def ex_time_def ex_rp_def minute_def)

text \<open>
  C4. \<^verbatim>\<open>updateActivityCounters\<close> always leaves \<^verbatim>\<open>LastControlTime\<close> equal to
  \<open>now\<close>. When the calendar date of \<open>now\<close> differs from that of \<^verbatim>\<open>LastControlTime\<close>
  in the year, the month or the day, the rollover removes the bucket of the weekday of
  \<open>now\<close> and no other; after the call the buckets of the other weekdays are as before
  the call, and the bucket of the weekday of \<open>now\<close> is absent when the classified map is
  empty, and otherwise holds exactly the keys of the classified map, each with one sampling
  interval: the durations of that weekday restart from zero.
\<close>

theorem updateActivityCounters_rollover:
  "LastControlTime (updateActivityCounters c rp now) = now \<and>
   (Year now \<noteq> Year (LastControlTime c) \<or> Month now \<noteq> Month (LastControlTime c) \<or>
    Day now \<noteq> Day (LastControlTime c) \<longrightarrow>
      ActivityDuration (dayRollover c now) = (ActivityDuration c)(Weekday now := None) \<and>
      (\<forall>d. d \<noteq> Weekday now \<longrightarrow>
         ActivityDuration (updateActivityCounters c rp now) d = ActivityDuration c d) \<and>
      (rp = [] \<longrightarrow> ActivityDuration (updateActivityCounters c rp now) (Weekday now) = None) \<and>
      (rp \<noteq> [] \<and> is_gomap rp \<longrightarrow>
         (\<exists>ad. ActivityDuration (updateActivityCounters c rp now) (Weekday now) = Some ad \<and>
            (\<forall>a. ad a = (if a \<in> fst ` set rp then Some (0 + SamplingInterval c) else None)))))"
proof -
  have lct: "LastControlTime (updateActivityCounters c rp now) = now"
    by (rule updateActivityCounters_LastControlTime)
  have roll: ?thesis
    if h: "Year now \<noteq> Year (LastControlTime c) \<or> Month now \<noteq> Month (LastControlTime c) \<or>
           Day now \<noteq> Day (LastControlTime c)"
  proof -
    have r: "ActivityDuration (dayRollover c now) = (ActivityDuration c)(Weekday now := None)"
      using h by (auto simp: dayRollover_def)
    have others: "\<forall>d. d \<noteq> Weekday now \<longrightarrow>
         ActivityDuration (updateActivityCounters c rp now) d = ActivityDuration c d"
    proof (cases "rp = []")
      case True
      then show ?thesis by (simp add: updateActivityCounters_empty r)
    next
      case False
      then show ?thesis by (simp add: updateActivityCounters_nonempty r)
    qed
    have empty: "rp = [] \<longrightarrow>
         ActivityDuration (updateActivityCounters c rp now) (Weekday now) = None"
      by (simp add: updateActivityCounters_empty r)
    have fresh: "\<exists>ad. ActivityDuration (updateActivityCounters c rp now) (Weekday now) = Some ad \<and>
            (\<forall>a. ad a = (if a \<in> fst ` set rp then Some (0 + SamplingInterval c) else None))"
      if ne: "rp \<noteq> []" and g: "is_gomap rp"
    proof -
      have d: "distinct (map fst rp)" using g by (simp add: is_gomap_def)
      show ?thesis
        by (simp add: updateActivityCounters_nonempty [OF ne] r bump_counters_apply [OF d])
    qed
    show ?thesis using lct r others empty fresh by blast
  qed
  show ?thesis
  proof (cases "Year now \<noteq> Year (LastControlTime c) \<or> Month now \<noteq> Month (LastControlTime c) \<or>
                Day now \<noteq> Day (LastControlTime c)")
    case True
    then show ?thesis by (rule roll)
  next
    case False
    then show ?thesis using lct by simp
  qed
qed

theorem updateActivityCounters_rollover_witness:
  "Month (ex_time 20 30) \<noteq> Month (LastControlTime (ex_controller ex_week_before (14 * minute))) \<and>
   ex_rp \<noteq> [] \<and> is_gomap ex_rp \<and> Monday \<noteq> Weekday (ex_time 20 30) \<and>
   LastControlTime
     (updateActivityCounters (ex_controller ex_week_before (14 * minute)) ex_rp (ex_time 20 30))
     = ex_time 20 30 \<and>
   ActivityDuration
     (updateActivityCounters (ex_controller ex_week_before (14 * minute)) ex_rp (ex_time 20 30))
     Monday = None \<and>
   (\<exists>ad. ActivityDuration
           (updateActivityCounters (ex_controller ex_week_before (14 * minute)) ex_rp
              (ex_time 20 30)) Sunday = Some ad \<and>
         ad ''GTA'' = Some minute \<and> ad ''Steam'' = None) \<and>
   ActivityDuration
     (updateActivityCounters (ex_controller ex_week_before (14 * minute)) [] (ex_time 20 30))
     Sunday = None"
proof -
  have m: "Year (ex_time 20 30) \<noteq> Year (LastControlTime (ex_controller ex_week_before (14 * minute)))
           \<or> Month (ex_time 20 30)
               \<noteq> Month (LastControlTime (ex_controller ex_week_before (14 * minute)))
           \<or> Day (ex_time 20 30) \<noteq> Day (LastControlTime (ex_controller ex_week_before (14 * minute)))"
    by (simp add: ex_time_def ex_controller_def ex_week_before_def)
  have g: "is_gomap ex_rp" and ne: "ex_rp \<noteq> []"
    by (simp_all add: is_gomap_def ex_rp_def)
  have keys: "fst ` set ex_rp = {''GTA''}"
    by (simp add: ex_rp_def)
  have wd: "Weekday (ex_time 20 30) = Sunday" "Monday \<noteq> Weekday (ex_time 20 30)"
    by (simp_all add: ex_time_def)
  have before: "ActivityDuration (ex_controller ex_week_before (14 * minute)) Monday = None"
    by (simp add: ex_controller_def ex_week_before_def)
  have si: "SamplingInterval (ex_controller ex_week_before (14 * minute)) = minute"
    by (simp add: ex_controller_def)
  have month: "Month (ex_time 20 30)
                 \<noteq> Month (LastControlTime (ex_controller ex_week_before (14 * minute)))"
    by (simp add: ex_time_def ex_controller_def ex_week_before_def)
  from updateActivityCounters_rollover
         [of "ex_controller ex_week_before (14 * minute)" ex_rp "ex_time 20 30"] m g ne
  have full: "LastControlTime
       (updateActivityCounters (ex_controller ex_week_before (14 * minute)) ex_rp (ex_time 20 30))
       = ex_time 20 30"
    "\<forall>d. d \<noteq> Weekday (ex_time 20 30) \<longrightarrow>
       ActivityDuration
         (updateActivityCounters (ex_controller ex_week_before (14 * minute)) ex_rp
            (ex_time 20 30)) d
       = ActivityDuration (ex_controller ex_week_before (14 * minute)) d"
    "\<exists>ad. ActivityDuration
            (updateActivityCounters (ex_controller ex_week_before (14 * minute)) ex_rp
               (ex_time 20 30)) (Weekday (ex_time 20 30)) = Some ad \<and>
          (\<forall>a. ad a = (if a \<in> fst ` set ex_rp
                        then Some (0 + SamplingInterval
                                         (ex_controller ex_week_before (14 * minute)))
                        else None))"
    by blast+
  from updateActivityCounters_rollover
         [of "ex_controller ex_week_before (14 * minute)" "[]" "ex_time 20 30"] m
  have none: "ActivityDuration
       (updateActivityCounters (ex_controller ex_week_before (14 * minute)) [] (ex_time 20 30))
       (Weekday (ex_time 20 30)) = None"
    by blast
  have monday: "ActivityDuration
       (updateActivityCounters (ex_controller ex_week_before (14 * minute)) ex_rp (ex_time 20 30))
       Monday = None"
    using full(2) wd(2) before by simp
  have sunday: "\<exists>ad. ActivityDuration
           (updateActivityCounters (ex_controller ex_week_before (14 * minute)) ex_rp
              (ex_time 20 30)) Sunday = Some ad \<and>
         ad ''GTA'' = Some minute \<and> ad ''Steam'' = None"
    using full(3) by (auto simp: wd(1) keys si)
  show ?thesis
    using month ne g wd(2) full(1) monday sunday none by (simp add: wd(1))
qed

section \<open>A whole scan\<close>

text \<open>
  C9. After \<^verbatim>\<open>updateActivityCounters\<close> on a non-empty classified map the bucket of the
  weekday of \<^verbatim>\<open>LastControlTime\<close> exists, so \<^verbatim>\<open>controlActivities\<close> on the resulting
  state does not return early: it runs its loop over the classified map with that bucket.
  This is the situation of \<^verbatim>\<open>scan\<close> whenever the classification returns a non-empty
  map.
\<close>

theorem scan_bucket_present:
  assumes "rp \<noteq> []"
  shows "(\<exists>ad. ActivityDuration (updateActivityCounters c rp now)
                 (Weekday (LastControlTime (updateActivityCounters c rp now))) = Some ad \<and>
               controlActivities (updateActivityCounters c rp now) rp =
                 control_loop (Weekday now) (Hour now * 100 + Minute now) ad rp (map fst rp)
                   (updateActivityCounters c rp now)) \<and>
         (getRunningProcessesPerActivity Compile MatchString c processes = Inr rp \<longrightarrow>
            (\<exists>ad. ActivityDuration (updateActivityCounters c rp now) (Weekday now) = Some ad \<and>
               scan Compile MatchString c processes now =
                 Inr (control_loop (Weekday now) (Hour now * 100 + Minute now) ad rp (map fst rp)
                        (updateActivityCounters c rp now))))"
proof -
  obtain ad where
    ad: "ActivityDuration (updateActivityCounters c rp now) (Weekday now) = Some ad"
    by (simp add: updateActivityCounters_nonempty [OF assms])
  have ctl: "controlActivities (updateActivityCounters c rp now) rp =
               control_loop (Weekday now) (Hour now * 100 + Minute now) ad rp (map fst rp)
                 (updateActivityCounters c rp now)"
    using ad by (simp add: controlActivities_def Let_def updateActivityCounters_LastControlTime)
  have first: "\<exists>ad. ActivityDuration (updateActivityCounters c rp now)
                 (Weekday (LastControlTime (updateActivityCounters c rp now))) = Some ad \<and>
               controlActivities (updateActivityCounters c rp now) rp =
                 control_loop (Weekday now) (Hour now * 100 + Minute now) ad rp (map fst rp)
                   (updateActivityCounters c rp now)"
    using ad ctl by (simp add: updateActivityCounters_LastControlTime)
  have second: "\<exists>ad. ActivityDuration (updateActivityCounters c rp now) (Weekday now) = Some ad \<and>
               scan Compile MatchString c processes now =
                 Inr (control_loop (Weekday now) (Hour now * 100 + Minute now) ad rp (map fst rp)
                        (updateActivityCounters c rp now))"
    if "getRunningProcessesPerActivity Compile MatchString c processes = Inr rp"
    using that ad ctl by (simp add: scan_def)
  show ?thesis using first second by blast
qed

theorem scan_bucket_present_witness:
  "ex_rp \<noteq> [] \<and>
   getRunningProcessesPerActivity ex_Compile ex_MatchString
     (ex_controller (ex_time 20 30) (14 * minute)) [ex_process] = Inr ex_rp \<and>
   ActivityDuration
     (updateActivityCounters (ex_controller (ex_time 20 30) (14 * minute)) ex_rp (ex_time 20 31))
     (Weekday (ex_time 20 31)) \<noteq> None \<and>
   scan ex_Compile ex_MatchString (ex_controller (ex_time 20 30) (14 * minute)) [ex_process]
     (ex_time 20 31)
     = Inr (updateActivityCounters (ex_controller (ex_time 20 30) (14 * minute)) ex_rp
              (ex_time 20 31), [])"
proof -
  have ne: "ex_rp \<noteq> []" by (simp add: ex_rp_def)
  have cls: "getRunningProcessesPerActivity ex_Compile ex_MatchString
               (ex_controller (ex_time 20 30) (14 * minute)) [ex_process] = Inr ex_rp"
    by (simp add: getRunningProcessesPerActivity_def ex_controller_def ex_rule_def ex_Compile_def
        ex_MatchString_def ex_process_def ex_rp_def procs_of_def)
  from scan_bucket_present [OF ne, of "ex_controller (ex_time 20 30) (14 * minute)"
      "ex_time 20 31" ex_Compile ex_MatchString "[ex_process]"] cls
  obtain ad where
    ad: "ActivityDuration
           (updateActivityCounters (ex_controller (ex_time 20 30) (14 * minute)) ex_rp
              (ex_time 20 31)) (Weekday (ex_time 20 31)) = Some ad"
    and sc: "scan ex_Compile ex_MatchString (ex_controller (ex_time 20 30) (14 * minute))
               [ex_process] (ex_time 20 31) =
             Inr (control_loop (Weekday (ex_time 20 31))
                    (Hour (ex_time 20 31) * 100 + Minute (ex_time 20 31)) ad ex_rp
                    (map fst ex_rp)
                    (updateActivityCounters (ex_controller (ex_time 20 30) (14 * minute)) ex_rp
                       (ex_time 20 31)))"
    by blast
  have adv: "ad = [''GTA'' \<mapsto> 15 * minute]"
    using ad
    by (simp add: updateActivityCounters_def dayRollover_def Let_def ex_controller_def
        ex_time_def ex_rp_def minute_def)
  have acts: "Activities (updateActivityCounters (ex_controller (ex_time 20 30) (14 * minute))
                 ex_rp (ex_time 20 31)) = [ex_rule]"
    by (simp add: updateActivityCounters_def Let_def ex_controller_def ex_rp_def)
  have t: "Weekday (ex_time 20 31) = Sunday"
    "Hour (ex_time 20 31) * 100 + Minute (ex_time 20 31) = 2031"
    "map fst ex_rp = [''GTA'']"
    by (simp_all add: ex_time_def ex_rp_def)
  have loop: "control_loop Sunday 2031 [''GTA'' \<mapsto> 15 * minute] ex_rp [''GTA''] c1 = (c1, [])"
    if "Activities c1 = [ex_rule]" for c1
    using that
    by (simp add: control_activity_def getOrCreateActivityRule_def ex_rule_def ex_schedule_def
        minute_def)
  have res: "scan ex_Compile ex_MatchString (ex_controller (ex_time 20 30) (14 * minute))
               [ex_process] (ex_time 20 31)
             = Inr (updateActivityCounters (ex_controller (ex_time 20 30) (14 * minute)) ex_rp
                      (ex_time 20 31), [])"
    unfolding sc t adv loop [OF acts] by (rule refl)
  show ?thesis using ne cls ad res by simp
qed


section \<open>The scenarios of the tests\<close>

text \<open>
  The example rule is what the provisioning functions build, as the tests do: a new rule
  from \<^verbatim>\<open>getOrCreateActivityRule\<close>, then \<^verbatim>\<open>AddProgramPattern\<close>,
  \<^verbatim>\<open>SetMaximumAllowedDurationPerDay\<close> and \<^verbatim>\<open>AddAllowedPeriod\<close> for Sunday.
\<close>

lemma ex_rule_provisioned:
  "getOrCreateActivityRule (newDadController minute (ex_time 20 30)) ''GTA'' =
     (\<lparr>SamplingInterval = minute,
       Activities = [\<lparr>Name = ''GTA'', ProcessPatterns = [], AllowedSchedules = Map.empty\<rparr>],
       LastControlTime = ex_time 20 30, ActivityDuration = Map.empty\<rparr>,
      \<lparr>Name = ''GTA'', ProcessPatterns = [], AllowedSchedules = Map.empty\<rparr>)"
  "AddAllowedPeriod
     (SetMaximumAllowedDurationPerDay
        (AddProgramPattern
           \<lparr>Name = ''GTA'', ProcessPatterns = [], AllowedSchedules = Map.empty\<rparr> ''GTA'')
        [Sunday] (15 * minute))
     [Sunday] 2000 2100 = ex_rule"
  by (simp_all add: getOrCreateActivityRule_def newDadController_def AddProgramPattern_def
      getOrCreateSchedule_def ex_rule_def ex_schedule_def Let_def fun_eq_iff)

text \<open>
  \<^verbatim>\<open>TestRunningProcessIsKilledIfRunningLongerThanAllowed\<close>: from fourteen minutes, a scan
  gives fifteen minutes and no kill, and one more scan gives sixteen minutes and the kill
  with the duration reason.
\<close>

lemma scan_longer_than_allowed:
  "scan ex_Compile ex_MatchString (ex_controller (ex_time 20 30) (14 * minute)) [ex_process]
     (ex_time 20 31)
   = Inr (ex_controller (ex_time 20 31) (15 * minute), [])"
  "scan ex_Compile ex_MatchString (ex_controller (ex_time 20 31) (15 * minute)) [ex_process]
     (ex_time 20 32)
   = Inr (ex_controller (ex_time 20 32) (16 * minute),
          [(''GTA'', [ex_process], ''Activity duration above threshold for this day'')])"
  by (simp_all add: scan_def getRunningProcessesPerActivity_def updateActivityCounters_def
      dayRollover_def controlActivities_def control_activity_def getOrCreateActivityRule_def
      procs_of_def Let_def ex_controller_def ex_rule_def ex_schedule_def ex_time_def
      ex_Compile_def ex_MatchString_def ex_process_def minute_def fun_eq_iff)

text \<open>
  \<^verbatim>\<open>TestActivityCountersMustBeResettedWhenChangingDay\<close>: fourteen minutes stored with
  \<^verbatim>\<open>updateActivityDuration\<close> on a Sunday; an update with an empty classified map on the
  Monday after reads as zero, and the Sunday bucket is still there.
\<close>

lemma day_change_reads_zero:
  "GetActivityDuration
     (updateActivityDuration (newDadController minute (ex_time 20 30)) ''GTA'' (14 * minute))
     ''GTA'' = 14 * minute"
  "GetActivityDuration
     (updateActivityCounters
        (updateActivityDuration (newDadController minute (ex_time 20 30)) ''GTA'' (14 * minute))
        [] \<lparr>Year = 2026, Month = 11, Day = 2, Weekday = Monday, Hour = 20, Minute = 30\<rparr>)
     ''GTA'' = 0"
  "ActivityDuration
     (updateActivityCounters
        (updateActivityDuration (newDadController minute (ex_time 20 30)) ''GTA'' (14 * minute))
        [] \<lparr>Year = 2026, Month = 11, Day = 2, Weekday = Monday, Hour = 20, Minute = 30\<rparr>)
     Sunday = Some [''GTA'' \<mapsto> 14 * minute]"
  by (simp_all add: GetActivityDuration_def updateActivityDuration_def updateActivityCounters_def
      dayRollover_def newDadController_def ex_time_def Let_def)

end
